theory Spec2Isabelle
  imports Main "HOL-Library.AList" "HOL-Library.FSet" "HOL-Library.Sublist"
begin


section \<open>Strings as Python sees them\<close>

text \<open>
  Text is a list of characters with code points below 256. \<open>is_space\<close> is Python's
  \<^verbatim>\<open>str.isspace\<close> on that range, which is also what the regular expression class
  \<^verbatim>\<open>\s\<close> matches: TAB, LF, VT, FF, CR, the separators 0x1C to 0x1F, the blank,
  NEL (0x85) and the no-break space (0xA0).
\<close>

definition is_space :: "char \<Rightarrow> bool" where
  "is_space c = (of_char c \<in> {9, 10, 11, 12, 13, 28, 29, 30, 31, 32, 133, 160 :: nat})"

text \<open>\<^verbatim>\<open>s.strip()\<close>: leading and trailing whitespace removed.\<close>

definition strip :: "string \<Rightarrow> string" where
  "strip s = rev (dropWhile is_space (rev (dropWhile is_space s)))"

text \<open>\<^verbatim>\<open>sep.join(xs)\<close>.\<close>

fun join_str :: "string \<Rightarrow> string list \<Rightarrow> string" where
  "join_str sep [] = []"
| "join_str sep [x] = x"
| "join_str sep (x # y # ys) = x @ sep @ join_str sep (y # ys)"

text \<open>\<^verbatim>\<open>len\<close> of a string, as a Python integer.\<close>

abbreviation len :: "string \<Rightarrow> int" where
  "len s \<equiv> int (length s)"

section \<open>The text chunker (app/utils/common.py, create_chunks)\<close>

text \<open>
  \<^verbatim>\<open>re.split(r'(?<=[.!?])\s+', text)\<close>: the text is cut at every maximal run of
  whitespace that directly follows one of the characters \<open>.\<close>, \<open>!\<close>, \<open>?\<close>; the run
  is dropped. \<open>acc\<close> holds the characters of the piece being read, last one first,
  so its head is the character the look-behind inspects. After a cut the run has
  been consumed whole, so the next character is no whitespace and an empty \<open>acc\<close>
  never needs a look-behind.
\<close>

definition sentence_end :: "char \<Rightarrow> bool" where
  "sentence_end c = (c = CHR ''.'' \<or> c = CHR ''!'' \<or> c = CHR ''?'')"

function split_aux :: "string \<Rightarrow> string \<Rightarrow> string list" where
  "split_aux acc [] = [rev acc]"
| "split_aux acc (c # cs) =
     (if is_space c \<and> acc \<noteq> [] \<and> sentence_end (hd acc)
      then rev acc # split_aux [] (dropWhile is_space cs)
      else split_aux (c # acc) cs)"
  by pat_completeness auto
termination
  by (relation "measure (\<lambda>(acc, cs). length cs)")
     (auto simp: le_imp_less_Suc length_dropWhile_le)

definition split_sentences :: "string \<Rightarrow> string list" where
  "split_sentences text = split_aux [] text"

text \<open>
  The state of the loop of \<^verbatim>\<open>create_chunks\<close>: the chunks emitted so far, the
  sentences of the running chunk and the running size, which adds up the lengths
  of the sentences only.
\<close>

record chunker =
  chunks :: "string list"
  current_chunk :: "string list"
  current_size :: int

text \<open>
  The inner loop \<^verbatim>\<open>for s in reversed(current_chunk)\<close>: sentences are taken from the
  end backward and put in front of \<open>overlap_sentences\<close> while the size stays within
  the overlap; the first sentence that does not fit ends the loop.
\<close>

fun overlap_loop :: "int \<Rightarrow> string list \<Rightarrow> string list \<Rightarrow> int \<Rightarrow> string list \<times> int" where
  "overlap_loop overlap [] overlap_sentences overlap_size = (overlap_sentences, overlap_size)"
| "overlap_loop overlap (s # ss) overlap_sentences overlap_size =
     (if overlap_size + len s \<le> overlap
      then overlap_loop overlap ss (s # overlap_sentences) (overlap_size + len s)
      else (overlap_sentences, overlap_size))"

text \<open>\<^verbatim>\<open>chunk_text = ' '.join(current_chunk); if chunk_text.strip(): chunks.append(chunk_text)\<close>\<close>

definition emit :: "string list \<Rightarrow> string list \<Rightarrow> string list" where
  "emit cs cur =
     (let chunk_text = join_str '' '' cur
      in if strip chunk_text \<noteq> [] then cs @ [chunk_text] else cs)"

text \<open>One pass of the body of \<^verbatim>\<open>for sentence in sentences\<close>.\<close>

definition chunk_step :: "int \<Rightarrow> int \<Rightarrow> chunker \<Rightarrow> string \<Rightarrow> chunker" where
  "chunk_step chunk_size overlap st sentence0 =
     (let sentence = strip sentence0 in
      if sentence = [] then st
      else
        let sentence_size = len sentence;
            st1 =
              (if current_size st + sentence_size > chunk_size \<and> current_chunk st \<noteq> []
               then
                 (case overlap_loop overlap (rev (current_chunk st)) [] 0 of
                    (overlap_sentences, overlap_size) \<Rightarrow>
                      \<lparr>chunks = emit (chunks st) (current_chunk st),
                       current_chunk = overlap_sentences,
                       current_size = overlap_size\<rparr>)
               else st)
        in st1\<lparr>current_chunk := current_chunk st1 @ [sentence],
               current_size := current_size st1 + sentence_size\<rparr>)"

definition chunker_init :: chunker where
  "chunker_init = \<lparr>chunks = [], current_chunk = [], current_size = 0\<rparr>"

definition create_chunks :: "string \<Rightarrow> int \<Rightarrow> int \<Rightarrow> string list" where
  "create_chunks text chunk_size overlap =
     (if text = [] then []
      else
        let st = foldl (chunk_step chunk_size overlap) chunker_init (split_sentences text)
        in if current_chunk st \<noteq> [] then emit (chunks st) (current_chunk st) else chunks st)"








section \<open>The rate-limited fetcher (app/utils/common.py, scrape_url_async)\<close>

text \<open>
  What an awaited call can raise. \<open>TimeoutError\<close> and the client's connection
  errors derive from Python's \<^verbatim>\<open>Exception\<close>, as does everything else a failed
  request raises; \<open>CancelledError\<close> derives from \<^verbatim>\<open>BaseException\<close> only, so the
  clause \<^verbatim>\<open>except Exception\<close> does not catch it.
\<close>

datatype exn = TimeoutError | ClientConnectionError string | OtherException string | CancelledError

fun is_Exception :: "exn \<Rightarrow> bool" where
  "is_Exception CancelledError = False"
| "is_Exception _ = True"

text \<open>
  The response of \<^verbatim>\<open>session.get\<close>: its status code, and what
  \<^verbatim>\<open>await response.text()\<close> gives, which may raise while the body is read or decoded.
\<close>

record http_response =
  status_code :: int
  response_text :: "exn + string"

text \<open>
  The body of the \<^verbatim>\<open>try\<close> block, with the outcomes of the two awaited calls
  \<^verbatim>\<open>rate_limit()\<close> and \<^verbatim>\<open>session.get(url, timeout=...)\<close> as inputs; \<open>Inl\<close> is a raise.
\<close>

definition scrape_url_try :: "exn + unit \<Rightarrow> exn + http_response \<Rightarrow> exn + string" where
  "scrape_url_try rate_limited got =
     (case rate_limited of
        Inl e \<Rightarrow> Inl e
      | Inr _ \<Rightarrow>
          (case got of
             Inl e \<Rightarrow> Inl e
           | Inr response \<Rightarrow>
               if status_code response = 200 then response_text response else Inr []))"

text \<open>\<^verbatim>\<open>except Exception as e: logger.error(...); return ""\<close>\<close>

definition scrape_url_async :: "exn + unit \<Rightarrow> exn + http_response \<Rightarrow> exn + string" where
  "scrape_url_async rate_limited got =
     (case scrape_url_try rate_limited got of
        Inl e \<Rightarrow> if is_Exception e then Inr [] else Inl e
      | Inr body \<Rightarrow> Inr body)"

section \<open>The HTML cleaner (app/utils/common.py, clean_text)\<close>

text \<open>
  The document tree BeautifulSoup builds: text nodes, comments and elements with
  their tag name (the parser lower-cases it) and children. The parser itself is a
  parameter \<open>parse\<close> of \<open>clean_text\<close>; \<open>None\<close> stands for a parse that raises.
\<close>

datatype node = Text string | Comment string | Element string "node list"

text \<open>
  \<^verbatim>\<open>for script in soup(["script", "style"]): script.decompose()\<close>: every such element
  is removed with all it contains.
\<close>

fun decompose_scripts :: "node \<Rightarrow> node list" where
  "decompose_scripts (Element tag kids) =
     (if tag \<in> set [''script'', ''style''] then []
      else [Element tag (concat (map decompose_scripts kids))])"
| "decompose_scripts n = [n]"

text \<open>\<^verbatim>\<open>find_all(names)\<close>: the elements with one of the names, in document order.\<close>

fun find_all :: "string list \<Rightarrow> node \<Rightarrow> node list" where
  "find_all names (Element tag kids) =
     (if tag \<in> set names then [Element tag kids] else []) @ concat (map (find_all names) kids)"
| "find_all names n = []"

text \<open>
  \<^verbatim>\<open>element.get_text(strip=True)\<close>: the strings below the element in document order
  (comments are left out), each stripped, the empty ones dropped, joined with
  nothing in between.
\<close>

fun all_strings :: "node \<Rightarrow> string list" where
  "all_strings (Text t) = [t]"
| "all_strings (Comment c) = []"
| "all_strings (Element tag kids) = concat (map all_strings kids)"

definition get_text_strip :: "node \<Rightarrow> string" where
  "get_text_strip element = concat (filter (\<lambda>s. s \<noteq> []) (map strip (all_strings element)))"

definition meaningful_tags :: "string list" where
  "meaningful_tags = [''p'', ''h1'', ''h2'', ''h3'', ''h4'', ''h5'', ''h6'', ''li'', ''div'', ''span'']"

text \<open>The text of every allow-listed element that is left after the scripts are gone.\<close>

definition fragments :: "node list \<Rightarrow> string list" where
  "fragments soup =
     map get_text_strip (concat (map (find_all meaningful_tags) (concat (map decompose_scripts soup))))"

definition newline :: string where
  "newline = [CHR 0x0A]"

definition clean_text :: "(string \<Rightarrow> node list option) \<Rightarrow> string \<Rightarrow> string" where
  "clean_text parse html =
     (case parse html of
        None \<Rightarrow> []
      | Some soup \<Rightarrow>
          let clean_texts = filter (\<lambda>text. text \<noteq> [] \<and> length text > 10) (fragments soup)
          in join_str newline clean_texts)"

section \<open>The frontier crawler (app/utils/common.py, crawl_website_async)\<close>

text \<open>\<^verbatim>\<open>str.lower\<close> on code points below 256: A to Z and the accented capitals.\<close>

definition to_lower :: "char \<Rightarrow> char" where
  "to_lower c =
     (let n = (of_char c :: nat)
      in if (65 \<le> n \<and> n \<le> 90) \<or> (192 \<le> n \<and> n \<le> 214) \<or> (216 \<le> n \<and> n \<le> 222)
         then char_of (n + 32) else c)"

definition skip_extensions :: "string list" where
  "skip_extensions = [''.pdf'', ''.jpg'', ''.jpeg'', ''.png'', ''.gif'', ''.zip'', ''.rar'',
                      ''.exe'', ''.dmg'', ''.mp4'', ''.mp3'', ''.avi'']"

definition skip_patterns :: "string list" where
  "skip_patterns = [''#'', ''mailto:'', ''tel:'', ''javascript:'', ''ftp://'']"

definition should_skip_url :: "string \<Rightarrow> bool" where
  "should_skip_url url =
     (let url_lower = map to_lower url
      in if list_ex (\<lambda>ext. suffix ext url_lower) skip_extensions then True
         else if list_ex (\<lambda>pattern. sublist pattern url_lower) skip_patterns then True
         else False)"

text \<open>
  The world outside the crawler. \<open>fetch k url\<close> is what the \<open>k\<close>-th request of the
  run, made for \<open>url\<close>, leaves in the result list of \<^verbatim>\<open>asyncio.gather\<close>: the text
  \<^verbatim>\<open>scrape_url_async\<close> returned or an exception object. \<open>hrefs url html\<close> is the list
  \<^verbatim>\<open>urljoin(url, link["href"])\<close> over the anchors of the page in document order, and
  \<open>netloc\<close> is \<^verbatim>\<open>urlparse(_).netloc\<close>.
\<close>

record web =
  fetch :: "nat \<Rightarrow> string \<Rightarrow> exn + string"
  hrefs :: "string \<Rightarrow> string \<Rightarrow> string list"
  netloc :: "string \<Rightarrow> string"

text \<open>
  The variables of the loop. \<open>data\<close> is a Python dictionary, kept in insertion
  order. \<open>fetch_log\<close> is not in the source: it records every request the loop
  makes, with the visited set at the moment the request was created.
\<close>

record crawl_state =
  visited :: "string fset"
  data :: "(string \<times> string) list"
  urls_to_visit :: "string list"
  fetch_log :: "(string \<times> string fset) list"

definition crawl_init :: "string \<Rightarrow> crawl_state" where
  "crawl_init start_url = \<lparr>visited = {||}, data = [], urls_to_visit = [start_url], fetch_log = []\<rparr>"

text \<open>The body of \<^verbatim>\<open>for link in soup.find_all("a", href=True)\<close>, for one resolved link.\<close>

definition consider_link :: "web \<Rightarrow> string \<Rightarrow> crawl_state \<Rightarrow> string \<Rightarrow> crawl_state" where
  "consider_link w start_url st full_url =
     (if netloc w full_url = netloc w start_url
         \<and> full_url |\<notin>| visited st
         \<and> full_url \<notin> set (urls_to_visit st)
      then (if \<not> should_skip_url full_url
            then st\<lparr>urls_to_visit := urls_to_visit st @ [full_url]\<rparr>
            else st)
      else st)"

text \<open>
  The body of \<^verbatim>\<open>for url, html in zip(current_batch, results)\<close>. An exception object
  that is an \<^verbatim>\<open>Exception\<close> is logged and skipped, an empty page is skipped. An object
  that is neither (a \<open>CancelledError\<close>) is handed to the HTML parser, which raises.
\<close>

definition process_result ::
    "web \<Rightarrow> string \<Rightarrow> crawl_state \<Rightarrow> string \<times> (exn + string) \<Rightarrow> exn + crawl_state" where
  "process_result w start_url st r =
     (case r of
        (url, Inl e) \<Rightarrow> if is_Exception e then Inr st else Inl (OtherException ''TypeError'')
      | (url, Inr html) \<Rightarrow>
          if html = [] then Inr st
          else Inr (foldl (consider_link w start_url)
                      (st\<lparr>visited := finsert url (visited st),
                          data := AList.update url html (data st)\<rparr>)
                      (hrefs w url html)))"

fun process_results ::
    "web \<Rightarrow> string \<Rightarrow> crawl_state \<Rightarrow> (string \<times> (exn + string)) list \<Rightarrow> exn + crawl_state" where
  "process_results w start_url st [] = Inr st"
| "process_results w start_url st (r # rs) =
     (case process_result w start_url st r of
        Inl e \<Rightarrow> Inl e
      | Inr st' \<Rightarrow> process_results w start_url st' rs)"

text \<open>
  One pass of \<^verbatim>\<open>while urls_to_visit\<close>: the loop stops (\<open>Stopped\<close>) when the queue is
  empty or the page cap is reached, otherwise it takes a batch of up to five URLs,
  requests those not yet visited, and pairs the batch with the results by position.
\<close>

datatype 'a progress = Running 'a | Stopped 'a | Raised exn

definition crawl_iteration :: "web \<Rightarrow> string \<Rightarrow> int option \<Rightarrow> crawl_state \<Rightarrow> crawl_state progress" where
  "crawl_iteration w start_url max_pages st =
     (if urls_to_visit st = [] then Stopped st
      else if (case max_pages of None \<Rightarrow> False | Some n \<Rightarrow> int (fcard (visited st)) \<ge> n)
      then Stopped st
      else
        let batch_size = min 5 (length (urls_to_visit st));
            current_batch = take batch_size (urls_to_visit st);
            st1 = st\<lparr>urls_to_visit := drop batch_size (urls_to_visit st)\<rparr>;
            tasks = filter (\<lambda>url. url |\<notin>| visited st1) current_batch;
            results = map (\<lambda>(i, url). fetch w (length (fetch_log st1) + i) url) (enumerate 0 tasks);
            st2 = st1\<lparr>fetch_log := fetch_log st1 @ map (\<lambda>url. (url, visited st1)) tasks\<rparr>
        in case process_results w start_url st2 (zip current_batch results) of
             Inl e \<Rightarrow> Raised e
           | Inr st3 \<Rightarrow> Running st3)"

text \<open>
  The loop, for at most \<open>n\<close> passes. \<open>Running\<close> after \<open>n\<close> passes means that the
  loop has not ended yet; the loop need not end (a site may have no last page).
\<close>

fun crawl_run :: "web \<Rightarrow> string \<Rightarrow> int option \<Rightarrow> nat \<Rightarrow> crawl_state \<Rightarrow> crawl_state progress" where
  "crawl_run w start_url max_pages 0 st = Running st"
| "crawl_run w start_url max_pages (Suc n) st =
     (case crawl_iteration w start_url max_pages st of
        Running st' \<Rightarrow> crawl_run w start_url max_pages n st'
      | Stopped st' \<Rightarrow> Stopped st'
      | Raised e \<Rightarrow> Raised e)"

text \<open>
  \<^verbatim>\<open>crawl_website_async(start_url, max_pages)\<close> with \<open>fuel\<close> passes allowed:
  \<open>None\<close> when the loop is still running after them, otherwise the dictionary
  returned or the exception raised.
\<close>

definition crawl_website_async ::
    "web \<Rightarrow> string \<Rightarrow> int option \<Rightarrow> nat \<Rightarrow> (exn + (string \<times> string) list) option" where
  "crawl_website_async w start_url max_pages fuel =
     (case crawl_run w start_url max_pages fuel (crawl_init start_url) of
        Running st \<Rightarrow> None
      | Stopped st \<Rightarrow> Some (Inr (data st))
      | Raised e \<Rightarrow> Some (Inl e))"

text \<open>
  A small site for the examples: the start page links to two pages of the same site
  and to a mail address; every request succeeds.
\<close>

definition example_web :: web where
  "example_web =
     \<lparr>fetch = (\<lambda>k url. Inr ''<html>page</html>''),
      hrefs = (\<lambda>url html. if url = ''http://example.test/''
                 then [''http://example.test/a'', ''http://example.test/b'', ''mailto:me@example.test'']
                 else []),
      netloc = (\<lambda>url. if prefix ''http://example.test/'' url then ''example.test'' else [])\<rparr>"

text \<open>
  What holds of the loop's variables throughout: every logged request was for a URL
  outside the visited set of that moment, and every URL visited, stored or queued
  has the network location of the start URL.
\<close>

definition crawl_inv :: "web \<Rightarrow> string \<Rightarrow> crawl_state \<Rightarrow> bool" where
  "crawl_inv w start_url st =
     ((\<forall>(url, seen)\<in>set (fetch_log st). url |\<notin>| seen) \<and>
      (\<forall>url. url |\<in>| visited st \<longrightarrow> netloc w url = netloc w start_url) \<and>
      (\<forall>url\<in>fst ` set (data st). netloc w url = netloc w start_url) \<and>
      (\<forall>url\<in>set (urls_to_visit st). netloc w url = netloc w start_url))"

section \<open>The progress store and the task orchestrator (app/api/routes.py)\<close>

text \<open>
  The values the orchestrator writes under the key \<^verbatim>\<open>"status"\<close>, and one task's
  entry of \<^verbatim>\<open>scraping_progress\<close>. Times are readings of \<^verbatim>\<open>datetime.now()\<close> in
  microseconds. The key \<^verbatim>\<open>"result"\<close> is absent until the task completes; its value
  holds the collection name, the number of pages and the number of chunks.
\<close>

datatype status = Crawling | Processing | GeneratingEmbeddings | Storing | Completed | Error

type_synonym result_summary = "string \<times> nat \<times> nat"

record snapshot =
  status :: status
  start_time :: int
  last_update :: int
  pages_scraped :: nat
  chunks_created :: nat
  error :: "string option"
  is_completed :: bool
  url :: string
  result :: "result_summary option"

text \<open>The keyword arguments the orchestrator passes to \<^verbatim>\<open>update_progress\<close>.\<close>

datatype kwarg = Pages_scraped nat | Chunks_created nat | Error_message string | Result result_summary

fun apply_kwarg :: "snapshot \<Rightarrow> kwarg \<Rightarrow> snapshot" where
  "apply_kwarg snap (Pages_scraped n) = snap\<lparr>pages_scraped := n\<rparr>"
| "apply_kwarg snap (Chunks_created n) = snap\<lparr>chunks_created := n\<rparr>"
| "apply_kwarg snap (Error_message m) = snap\<lparr>error := Some m\<rparr>"
| "apply_kwarg snap (Result r) = snap\<lparr>result := Some r\<rparr>"

text \<open>
  A background run of \<^verbatim>\<open>process_scraping\<close> is suspended at one of its
  \<^verbatim>\<open>await\<close>s, with the local variables it needs afterwards: not yet started,
  waiting for the crawl, waiting for the embeddings of the batch at index \<open>i\<close>
  (with the pages, all chunks and the embeddings so far), waiting for the storage
  of the batch at index \<open>i\<close>, or returned. Vectors are never inspected.
\<close>

type_synonym vector = nat

datatype pc =
    Scheduled
  | Crawl_awaited
  | Embed_awaited "(string \<times> string) list" "string list" "vector list" nat
  | Ingest_awaited "(string \<times> string) list" "string list" "vector list" nat
  | Returned

record run =
  run_user :: string
  run_task :: string
  run_url :: string
  run_collection :: string
  run_pc :: pc

text \<open>
  The two module-level dictionaries, both \<^verbatim>\<open>defaultdict\<close>s (a user without an
  entry has no tasks), and the background runs scheduled so far. \<open>written\<close> is
  not in the source: it logs every status written to a task's entry, in order.
\<close>

record sys =
  scraping_progress :: "string \<Rightarrow> string \<rightharpoonup> snapshot"
  active_tasks :: "string \<Rightarrow> string fset"
  background :: "run list"
  written :: "(string \<times> string \<times> status) list"

definition sys_init :: sys where
  "sys_init = \<lparr>scraping_progress = (\<lambda>user_id. Map.empty), active_tasks = (\<lambda>user_id. {||}),
               background = [], written = []\<rparr>"

definition MAX_CONCURRENT_TASKS :: nat where
  "MAX_CONCURRENT_TASKS = 3"

datatype http_error = HTTPException int string

definition put_snapshot :: "sys \<Rightarrow> string \<Rightarrow> string \<Rightarrow> snapshot \<Rightarrow> sys" where
  "put_snapshot st user_id task_id snap =
     st\<lparr>scraping_progress :=
          (scraping_progress st)(user_id := (scraping_progress st user_id)(task_id \<mapsto> snap))\<rparr>"

text \<open>
  \<^verbatim>\<open>update_progress(user_id, task_id, status, **kwargs)\<close>; \<open>now\<close> is the clock
  reading it takes.
\<close>

definition update_progress :: "sys \<Rightarrow> string \<Rightarrow> string \<Rightarrow> status \<Rightarrow> kwarg list \<Rightarrow> int \<Rightarrow> sys" where
  "update_progress st user_id task_id new_status kwargs now =
     (case scraping_progress st user_id task_id of
        None \<Rightarrow> st
      | Some snap \<Rightarrow>
          let snap1 = foldl apply_kwarg (snap\<lparr>status := new_status, last_update := now\<rparr>) kwargs;
              snap2 = (if new_status \<in> set [Completed, Error] then snap1\<lparr>is_completed := True\<rparr>
                       else snap1)
          in (put_snapshot st user_id task_id snap2)
               \<lparr>written := written st @ [(user_id, task_id, new_status)]\<rparr>)"

text \<open>
  \<^verbatim>\<open>scrape_and_ingest\<close> (POST /scrape-and-ingest). \<open>task_id\<close> is the MD5 digest the
  handler computes from the URL, the clock and the user; \<open>start_now\<close> and
  \<open>update_now\<close> are the two clock readings stored; \<open>added\<close> is the outcome of
  \<^verbatim>\<open>background_tasks.add_task\<close>, \<open>Inl\<close> with the message when it raises, which the
  handler turns into a 500. The handler has no \<^verbatim>\<open>await\<close>: it runs in one piece.
\<close>

definition scrape_and_ingest ::
    "sys \<Rightarrow> string \<Rightarrow> string \<Rightarrow> string \<Rightarrow> int \<Rightarrow> int \<Rightarrow> string + unit
       \<Rightarrow> (http_error + string \<times> string) \<times> sys" where
  "scrape_and_ingest st user_id req_url task_id start_now update_now added =
     (if fcard (active_tasks st user_id) \<ge> MAX_CONCURRENT_TASKS
      then (Inl (HTTPException 429
              ''Maximum concurrent scraping tasks (3) reached. Please wait for some tasks to complete.''),
            st)
      else
        let st1 = put_snapshot st user_id task_id
                    \<lparr>status = Crawling, start_time = start_now, last_update = update_now,
                     pages_scraped = 0, chunks_created = 0, error = None,
                     is_completed = False, url = req_url, result = None\<rparr>;
            st2 = st1\<lparr>written := written st1 @ [(user_id, task_id, Crawling)]\<rparr>;
            st3 = st2\<lparr>active_tasks :=
                       (active_tasks st2)(user_id := finsert task_id (active_tasks st2 user_id))\<rparr>
        in case added of
             Inl message \<Rightarrow> (Inl (HTTPException 500 message), st3)
           | Inr _ \<Rightarrow>
               (Inr (task_id, ''started''),
                st3\<lparr>background := background st3 @
                       [\<lparr>run_user = user_id, run_task = task_id, run_url = req_url,
                         run_collection = user_id, run_pc = Scheduled\<rparr>]\<rparr>))"

text \<open>
  \<^verbatim>\<open>get_scraping_progress\<close> (GET /scraping-progress/{task_id}). An error message is
  true in Python when it is set and not empty. \<^verbatim>\<open>time_diff < 2\<close> compares seconds;
  here the difference is in microseconds.
\<close>

definition truthy :: "string option \<Rightarrow> bool" where
  "truthy m = (case m of None \<Rightarrow> False | Some s \<Rightarrow> s \<noteq> [])"

definition get_scraping_progress ::
    "sys \<Rightarrow> string \<Rightarrow> string \<Rightarrow> int \<Rightarrow> (http_error + snapshot) \<times> sys" where
  "get_scraping_progress st user_id task_id now =
     (case scraping_progress st user_id task_id of
        None \<Rightarrow> (Inl (HTTPException 404 ''Task not found''), st)
      | Some snap \<Rightarrow>
          let current_time = now;
              time_diff = current_time - last_update snap
          in if is_completed snap \<or> truthy (error snap) then (Inr snap, st)
             else if time_diff < 2000000 then (Inr snap, st)
             else (Inr (snap\<lparr>last_update := current_time\<rparr>),
                   put_snapshot st user_id task_id (snap\<lparr>last_update := current_time\<rparr>)))"

text \<open>\<^verbatim>\<open>finally: active_tasks[user_id].discard(task_id)\<close>\<close>

definition discard_task :: "sys \<Rightarrow> string \<Rightarrow> string \<Rightarrow> sys" where
  "discard_task st user_id task_id =
     st\<lparr>active_tasks := (active_tasks st)(user_id := active_tasks st user_id |-| {|task_id|})\<rparr>"

text \<open>
  The end of a run through \<^verbatim>\<open>except Exception as e\<close> or through one of the two
  early returns: the error is written, then \<^verbatim>\<open>finally\<close> discards the task.
\<close>

definition fail_run :: "sys \<Rightarrow> run \<Rightarrow> string \<Rightarrow> int \<Rightarrow> run \<times> sys" where
  "fail_run st r message now =
     (r\<lparr>run_pc := Returned\<rparr>,
      discard_task
        (update_progress st (run_user r) (run_task r) Error [Error_message message] now)
        (run_user r) (run_task r))"

text \<open>
  The pages of one batch: each non-empty page is cleaned, and if the cleaned text
  is not blank it is cut into chunks of size 64 with overlap 10.
\<close>

definition page_chunks :: "(string \<Rightarrow> node list option) \<Rightarrow> string list \<Rightarrow> string \<times> string \<Rightarrow> string list" where
  "page_chunks parse all_chunks page =
     (case page of (page_url, html) \<Rightarrow>
        if html \<noteq> [] then
          (let cleaned_text = clean_text parse html
           in if strip cleaned_text \<noteq> [] then all_chunks @ create_chunks cleaned_text 64 10
              else all_chunks)
        else all_chunks)"

text \<open>
  \<^verbatim>\<open>for i in range(0, len(pages), chunk_size)\<close> with \<open>chunk_size = 5\<close>: the pages
  still to do are taken five at a time, and the chunk count is published after
  each batch.
\<close>

function process_pages ::
    "(string \<Rightarrow> node list option) \<Rightarrow> string \<Rightarrow> string \<Rightarrow> int
       \<Rightarrow> (string \<times> string) list \<Rightarrow> string list \<times> sys \<Rightarrow> string list \<times> sys" where
  "process_pages parse user_id task_id now todo (all_chunks, st) =
     (if todo = [] then (all_chunks, st)
      else
        let page_chunk = take 5 todo;
            all_chunks1 = foldl (page_chunks parse) all_chunks page_chunk;
            st1 = update_progress st user_id task_id Processing
                    [Chunks_created (length all_chunks1)] now
        in process_pages parse user_id task_id now (drop 5 todo) (all_chunks1, st1))"
  by pat_completeness auto
termination
  by (relation "measure (\<lambda>(parse, user_id, task_id, now, todo, acc). length todo)") auto

text \<open>
  What resumes a suspended run: the start of the task, or the outcome of the call
  it awaits, \<open>Inl\<close> with the message of the \<^verbatim>\<open>Exception\<close> when the call raises.
\<close>

datatype outcome =
    Started
  | Crawled "string + (string \<times> string) list"
  | Embedded "string + vector list"
  | Ingested "string + unit"

text \<open>
  \<^verbatim>\<open>process_scraping\<close>, from one \<^verbatim>\<open>await\<close> to the next. Between two \<^verbatim>\<open>await\<close>s
  nothing else runs on the event loop, so each piece is one step; \<open>now\<close> is the
  clock reading of the step. An outcome that is not the one the run awaits is no
  step of the code and changes nothing.
\<close>

definition resume_run ::
    "(string \<Rightarrow> node list option) \<Rightarrow> sys \<Rightarrow> run \<Rightarrow> outcome \<Rightarrow> int \<Rightarrow> run \<times> sys" where
  "resume_run parse st r out now =
     (let user_id = run_user r; task_id = run_task r in
      case (run_pc r, out) of
        (Scheduled, Started) \<Rightarrow>
          (r\<lparr>run_pc := Crawl_awaited\<rparr>, update_progress st user_id task_id Crawling [] now)
      | (Crawl_awaited, Crawled (Inl message)) \<Rightarrow> fail_run st r message now
      | (Crawl_awaited, Crawled (Inr pages)) \<Rightarrow>
          if pages = [] then
            fail_run st r ''No pages could be scraped from the provided URL'' now
          else
            let st1 = update_progress st user_id task_id Crawling [Pages_scraped (length pages)] now;
                st2 = update_progress st1 user_id task_id Processing [] now
            in (case process_pages parse user_id task_id now pages ([], st2) of
                  (all_chunks, st3) \<Rightarrow>
                    if all_chunks = [] then
                      fail_run st3 r ''No valid text content found to ingest from the website'' now
                    else
                      (r\<lparr>run_pc := Embed_awaited pages all_chunks [] 0\<rparr>,
                       update_progress st3 user_id task_id GeneratingEmbeddings [] now))
      | (Embed_awaited pages all_chunks all_embeddings i, Embedded (Inl message)) \<Rightarrow>
          fail_run st r message now
      | (Embed_awaited pages all_chunks all_embeddings i, Embedded (Inr embeddings)) \<Rightarrow>
          if i + 50 < length all_chunks then
            (r\<lparr>run_pc := Embed_awaited pages all_chunks (all_embeddings @ embeddings) (i + 50)\<rparr>, st)
          else
            (r\<lparr>run_pc := Ingest_awaited pages all_chunks (all_embeddings @ embeddings) 0\<rparr>,
             update_progress st user_id task_id Storing [] now)
      | (Ingest_awaited pages all_chunks all_embeddings i, Ingested (Inl message)) \<Rightarrow>
          fail_run st r message now
      | (Ingest_awaited pages all_chunks all_embeddings i, Ingested (Inr _)) \<Rightarrow>
          if i + 50 < length all_chunks then
            (r\<lparr>run_pc := Ingest_awaited pages all_chunks all_embeddings (i + 50)\<rparr>, st)
          else
            (r\<lparr>run_pc := Returned\<rparr>,
             discard_task
               (update_progress st user_id task_id Completed
                  [Result (run_collection r, length pages, length all_chunks)] now)
               user_id task_id)
      | _ \<Rightarrow> (r, st))"

text \<open>
  What happens on the event loop, one event at a time: a request to start a task,
  a poll, or the \<open>k\<close>-th background run resuming.
\<close>

datatype event =
    Request string string string int int "string + unit"
  | Poll string string int
  | Resume nat outcome int

definition exec_event :: "(string \<Rightarrow> node list option) \<Rightarrow> sys \<Rightarrow> event \<Rightarrow> sys" where
  "exec_event parse st ev =
     (case ev of
        Request user_id req_url task_id start_now update_now added \<Rightarrow>
          snd (scrape_and_ingest st user_id req_url task_id start_now update_now added)
      | Poll user_id task_id now \<Rightarrow> snd (get_scraping_progress st user_id task_id now)
      | Resume k out now \<Rightarrow>
          if k < length (background st) then
            (case resume_run parse st (background st ! k) out now of
               (r', st') \<Rightarrow> st'\<lparr>background := (background st')[k := r']\<rparr>)
          else st)"

definition exec :: "(string \<Rightarrow> node list option) \<Rightarrow> event list \<Rightarrow> sys \<Rightarrow> sys" where
  "exec parse evs st = foldl (exec_event parse) st evs"


text \<open>
  The order of the states, and what the claim allows between two consecutive
  writes of a task's status: no step back along the chain from crawling to
  completed, or a jump to error from a state that is not terminal.
\<close>

fun rank :: "status \<Rightarrow> nat" where
  "rank Crawling = 0"
| "rank Processing = 1"
| "rank GeneratingEmbeddings = 2"
| "rank Storing = 3"
| "rank Completed = 4"
| "rank Error = 5"

definition terminal :: "status \<Rightarrow> bool" where
  "terminal s = (s = Completed \<or> s = Error)"

definition status_step :: "status \<Rightarrow> status \<Rightarrow> bool" where
  "status_step a b =
     ((a \<noteq> Error \<and> b \<noteq> Error \<and> rank a \<le> rank b) \<or> (b = Error \<and> \<not> terminal a))"

definition statuses_written :: "sys \<Rightarrow> string \<Rightarrow> string \<Rightarrow> status list" where
  "statuses_written st user_id task_id =
     map (\<lambda>(u, t, s). s) (filter (\<lambda>(u, t, s). u = user_id \<and> t = task_id) (written st))"


text \<open>
  What holds of the store at every moment: no user has more active tasks than the
  cap; an entry is marked completed exactly when its status is terminal; an entry
  that is not completed is in its user's active set; and the statuses written to
  an entry obey \<open>status_step\<close> and end with the entry's current status.
\<close>

definition task_log_ok :: "sys \<Rightarrow> bool" where
  "task_log_ok st =
     (\<forall>u t. successively status_step (statuses_written st u t) \<and>
        (case scraping_progress st u t of
           None \<Rightarrow> statuses_written st u t = []
         | Some snap \<Rightarrow> statuses_written st u t \<noteq> [] \<and>
                        last (statuses_written st u t) = status snap))"

definition store_inv :: "sys \<Rightarrow> bool" where
  "store_inv st =
     ((\<forall>u. fcard (active_tasks st u) \<le> MAX_CONCURRENT_TASKS) \<and>
      (\<forall>u t snap. scraping_progress st u t = Some snap \<longrightarrow>
          (is_completed snap \<longleftrightarrow> terminal (status snap))) \<and>
      (\<forall>u t snap. scraping_progress st u t = Some snap \<and> \<not> is_completed snap \<longrightarrow>
          t |\<in>| active_tasks st u) \<and>
      task_log_ok st)"

text \<open>
  What holds of the background runs: no two belong to the same task of the same
  user, and the entry of a run that has not returned shows the status of the
  phase the run is suspended in and is not completed.
\<close>

fun expected_status :: "pc \<Rightarrow> status option" where
  "expected_status Scheduled = Some Crawling"
| "expected_status Crawl_awaited = Some Crawling"
| "expected_status (Embed_awaited pages all_chunks all_embeddings i) = Some GeneratingEmbeddings"
| "expected_status (Ingest_awaited pages all_chunks all_embeddings i) = Some Storing"
| "expected_status Returned = None"


definition run_ok :: "sys \<Rightarrow> run \<Rightarrow> bool" where
  "run_ok st r =
     (case expected_status (run_pc r) of
        None \<Rightarrow> scraping_progress st (run_user r) (run_task r) \<noteq> None
      | Some s \<Rightarrow>
          (\<exists>snap. scraping_progress st (run_user r) (run_task r) = Some snap \<and>
                  status snap = s \<and> \<not> is_completed snap))"




text \<open>
  Runs for the examples. In \<open>example_requests\<close> the user alice starts three tasks.
  In \<open>example_success\<close> one task runs to its end: the crawl returns one page, the
  page gives one chunk, the chunk is embedded and stored. In \<open>example_failure\<close>
  the crawl raises. \<open>example_parse\<close> reads every page as one paragraph.
\<close>

definition example_parse :: "string \<Rightarrow> node list option" where
  "example_parse html = Some [Element ''p'' [Text ''Hello world. This is a test.'']]"

definition example_requests :: "event list" where
  "example_requests =
     [Request ''alice'' ''http://example.test/'' ''t1'' 1000000 1000000 (Inr ()),
      Request ''alice'' ''http://example.test/'' ''t2'' 2000000 2000000 (Inr ()),
      Request ''alice'' ''http://example.test/'' ''t3'' 3000000 3000000 (Inr ())]"





definition example_sys :: sys where
  "example_sys = exec example_parse example_requests sys_init"

definition example_snapshot :: snapshot where
  "example_snapshot = \<lparr>status = Crawling, start_time = 1000000, last_update = 1000000,
                     pages_scraped = 0, chunks_created = 0, error = None,
                     is_completed = False, url = ''http://example.test/'', result = None\<rparr>"

section \<open>Proofs: the text chunker\<close>

subsection \<open>The overlap seed\<close>









subsection \<open>The chunks are the joined sentence groups\<close>



lemma set_strip: "set (strip s) \<subseteq> set s"
proof -
  have "set (strip s) = set (dropWhile is_space (rev (dropWhile is_space s)))"
    by (simp add: strip_def)
  also have "\<dots> \<subseteq> set (rev (dropWhile is_space s))" by (rule set_dropWhileD[THEN subsetI]) 
  also have "\<dots> \<subseteq> set s" using set_dropWhileD by fastforce
  finally show ?thesis .
qed















subsection \<open>Consecutive chunks\<close>











text \<open>
  Claim C1 at the text \<open>A. B.\<close> with chunk size 4 and overlap 1: the running size
  counts the two sentences (2 + 2 = 4, not above 4) but not the blank that joins
  them, so the one chunk emitted holds two sentences, neither longer than the chunk
  size, and is 5 characters long.
\<close>

theorem create_chunks_exceeds_chunk_size:
  "split_sentences ''A. B.'' = [''A.'', ''B.''] \<and>
   create_chunks ''A. B.'' 4 1 = [''A. B.''] \<and>
   length ''A. B.'' = 5"
  by code_simp

section \<open>Proofs: the fetcher and the cleaner\<close>

text \<open>
  Claim C6. Whatever the rate limiter and the request do: a 200 response whose body
  is read gives that body; a response with any other status, a timeout, a
  connection error and any other \<^verbatim>\<open>Exception\<close> (raised by the rate limiter, by the
  request or while the body is read) give the empty string; and no \<^verbatim>\<open>Exception\<close>
  ever reaches the caller.
\<close>

theorem scrape_url_async_swallows:
  "(rate_limited = Inr () \<and> got = Inr response \<and> status_code response = 200 \<and>
      response_text response = Inr body \<longrightarrow>
      scrape_url_async rate_limited got = Inr body) \<and>
   (rate_limited = Inr () \<and> got = Inr response \<and> status_code response \<noteq> 200 \<longrightarrow>
      scrape_url_async rate_limited got = Inr []) \<and>
   (rate_limited = Inr () \<and> got = Inl TimeoutError \<longrightarrow>
      scrape_url_async rate_limited got = Inr []) \<and>
   (rate_limited = Inr () \<and> got = Inl (ClientConnectionError msg) \<longrightarrow>
      scrape_url_async rate_limited got = Inr []) \<and>
   (scrape_url_try rate_limited got = Inl e \<and> is_Exception e \<longrightarrow>
      scrape_url_async rate_limited got = Inr []) \<and>
   (\<forall>e'. scrape_url_async rate_limited got = Inl e' \<longrightarrow> \<not> is_Exception e')"
  by (auto simp: scrape_url_async_def scrape_url_try_def split: sum.splits if_splits)

theorem scrape_url_async_swallows_witness:
  "scrape_url_async (Inr ()) (Inr \<lparr>status_code = 200, response_text = Inr ''<p>hello</p>''\<rparr>)
     = Inr ''<p>hello</p>'' \<and>
   scrape_url_async (Inr ()) (Inr \<lparr>status_code = 404, response_text = Inr ''gone''\<rparr>) = Inr [] \<and>
   scrape_url_async (Inr ()) (Inl TimeoutError) = Inr [] \<and>
   scrape_url_async (Inr ()) (Inl (ClientConnectionError ''refused'')) = Inr [] \<and>
   scrape_url_async (Inr ()) (Inr \<lparr>status_code = 200, response_text = Inl (OtherException ''decode'')\<rparr>)
     = Inr []"
proof -
  let ?ok = "\<lparr>status_code = 200, response_text = Inr ''<p>hello</p>''\<rparr>"
  let ?missing = "\<lparr>status_code = 404, response_text = Inr ''gone''\<rparr>"
  let ?broken = "\<lparr>status_code = 200, response_text = Inl (OtherException ''decode'')\<rparr>"
  have a: "scrape_url_async (Inr ()) (Inr ?ok) = Inr ''<p>hello</p>''"
    using scrape_url_async_swallows[of "Inr ()" "Inr ?ok" ?ok "''<p>hello</p>''"] by simp
  have b: "scrape_url_async (Inr ()) (Inr ?missing) = Inr []"
    using scrape_url_async_swallows[of "Inr ()" "Inr ?missing" ?missing] by simp
  have c: "scrape_url_async (Inr ()) (Inl TimeoutError) = Inr []"
    using scrape_url_async_swallows[of "Inr ()" "Inl TimeoutError"] by simp
  have d: "scrape_url_async (Inr ()) (Inl (ClientConnectionError ''refused'')) = Inr []"
    using scrape_url_async_swallows[of "Inr ()" "Inl (ClientConnectionError ''refused'')" _ _ "''refused''"]
    by simp
  have e: "scrape_url_async (Inr ()) (Inr ?broken) = Inr []"
    using scrape_url_async_swallows[of "Inr ()" "Inr ?broken" _ _ _ "OtherException ''decode''"]
    by (simp add: scrape_url_try_def)
  from a b c d e show ?thesis by simp
qed






section \<open>Proofs: the frontier crawler\<close>

lemma consider_link_inv: "crawl_inv w s st \<Longrightarrow> crawl_inv w s (consider_link w s st u)"
  by (auto simp: crawl_inv_def consider_link_def)

lemma foldl_consider_link_inv:
  "crawl_inv w s st \<Longrightarrow> crawl_inv w s (foldl (consider_link w s) st us)"
  by (induction us arbitrary: st) (auto simp: consider_link_inv)

lemma process_result_inv:
  assumes "crawl_inv w s st" "netloc w (fst r) = netloc w s" "process_result w s st r = Inr st'"
  shows "crawl_inv w s st'"
proof (cases r)
  case (Pair url res)
  show ?thesis
  proof (cases res)
    case (Inl e)
    with Pair assms show ?thesis by (auto simp: process_result_def split: if_splits)
  next
    case (Inr html)
    show ?thesis
    proof (cases "html = []")
      case True
      with Pair Inr assms show ?thesis by (auto simp: process_result_def)
    next
      case False
      let ?st1 = "st\<lparr>visited := finsert url (visited st), data := AList.update url html (data st)\<rparr>"
      have "crawl_inv w s ?st1"
        using assms(1,2) Pair by (auto simp: crawl_inv_def dom_update)
      then have "crawl_inv w s (foldl (consider_link w s) ?st1 (hrefs w url html))"
        by (rule foldl_consider_link_inv)
      with Pair Inr False assms(3) show ?thesis by (auto simp: process_result_def)
    qed
  qed
qed

lemma process_results_inv:
  "crawl_inv w s st \<Longrightarrow> \<forall>r\<in>set rs. netloc w (fst r) = netloc w s \<Longrightarrow>
   process_results w s st rs = Inr st' \<Longrightarrow> crawl_inv w s st'"
proof (induction rs arbitrary: st)
  case Nil
  then show ?case by simp
next
  case (Cons r rs)
  from Cons.prems(3) obtain st1 where
    r: "process_result w s st r = Inr st1" and rs: "process_results w s st1 rs = Inr st'"
    by (auto split: sum.splits)
  have "crawl_inv w s st1" using Cons.prems(1,2) r by (auto intro: process_result_inv)
  then show ?case using Cons.IH[OF _ _ rs] Cons.prems(2) by auto
qed

lemma crawl_iteration_inv:
  assumes "crawl_inv w s st"
  shows "crawl_iteration w s m st = Running st' \<or> crawl_iteration w s m st = Stopped st' \<Longrightarrow>
         crawl_inv w s st'"
proof -
  assume it: "crawl_iteration w s m st = Running st' \<or> crawl_iteration w s m st = Stopped st'"
  let ?k = "min 5 (length (urls_to_visit st))"
  let ?batch = "take ?k (urls_to_visit st)"
  let ?st1 = "st\<lparr>urls_to_visit := drop ?k (urls_to_visit st)\<rparr>"
  let ?tasks = "filter (\<lambda>url. url |\<notin>| visited ?st1) ?batch"
  let ?results = "map (\<lambda>(i, url). fetch w (length (fetch_log ?st1) + i) url) (enumerate 0 ?tasks)"
  let ?st2 = "?st1\<lparr>fetch_log := fetch_log ?st1 @ map (\<lambda>url. (url, visited ?st1)) ?tasks\<rparr>"
  show ?thesis
  proof (cases "urls_to_visit st = [] \<or> (case m of None \<Rightarrow> False | Some n \<Rightarrow> int (fcard (visited st)) \<ge> n)")
    case True
    with it have "st' = st" by (auto simp: crawl_iteration_def split: if_splits)
    with assms show ?thesis by simp
  next
    case False
    with it have pr: "process_results w s ?st2 (zip ?batch ?results) = Inr st'"
      by (auto simp: crawl_iteration_def Let_def split: sum.splits if_splits)
    have inv2: "crawl_inv w s ?st2"
      using assms by (auto simp: crawl_inv_def dest: in_set_dropD)
    have "\<forall>r\<in>set (zip ?batch ?results). netloc w (fst r) = netloc w s"
    proof
      fix r assume "r \<in> set (zip ?batch ?results)"
      then have "fst r \<in> set ?batch" by (metis prod.collapse set_zip_leftD)
      then have "fst r \<in> set (urls_to_visit st)" by (auto dest: in_set_takeD)
      with assms show "netloc w (fst r) = netloc w s" by (auto simp: crawl_inv_def)
    qed
    from process_results_inv[OF inv2 this pr] show ?thesis .
  qed
qed

lemma crawl_run_inv:
  "crawl_inv w s st \<Longrightarrow>
   crawl_run w s m n st = Running st' \<or> crawl_run w s m n st = Stopped st' \<Longrightarrow>
   crawl_inv w s st'"
proof (induction n arbitrary: st)
  case 0
  then show ?case by simp
next
  case (Suc n)
  show ?case
  proof (cases "crawl_iteration w s m st")
    case (Running st1)
    then have "crawl_inv w s st1" using Suc.prems(1) crawl_iteration_inv by blast
    with Suc.IH[of st1] Suc.prems(2) Running show ?thesis by simp
  next
    case (Stopped st1)
    then have "crawl_inv w s st1" using Suc.prems(1) crawl_iteration_inv by blast
    with Suc.prems(2) Stopped show ?thesis by simp
  next
    case (Raised e)
    with Suc.prems(2) show ?thesis by simp
  qed
qed

lemma crawl_init_inv: "crawl_inv w s (crawl_init s)"
  by (simp add: crawl_inv_def crawl_init_def)

text \<open>
  Claim C5. For every site, start URL, page cap and number of passes of the loop:
  every request the crawler has made was for a URL that was not in the visited set
  when the request was created; every visited URL and every key of the dictionary
  built so far has the network location of the start URL; and so has every key of
  the dictionary the crawler returns.
\<close>

theorem crawl_same_site_no_revisit:
  "(\<forall>st. crawl_run w start_url max_pages n (crawl_init start_url) = Running st \<or>
         crawl_run w start_url max_pages n (crawl_init start_url) = Stopped st \<longrightarrow>
         (\<forall>(url, seen)\<in>set (fetch_log st). url |\<notin>| seen) \<and>
         (\<forall>url. url |\<in>| visited st \<longrightarrow> netloc w url = netloc w start_url) \<and>
         (\<forall>url\<in>fst ` set (data st). netloc w url = netloc w start_url)) \<and>
   (\<forall>pages. crawl_website_async w start_url max_pages n = Some (Inr pages) \<longrightarrow>
         (\<forall>url\<in>fst ` set pages. netloc w url = netloc w start_url))"
proof (intro conjI allI impI)
  fix st
  assume "crawl_run w start_url max_pages n (crawl_init start_url) = Running st \<or>
          crawl_run w start_url max_pages n (crawl_init start_url) = Stopped st"
  from crawl_run_inv[OF crawl_init_inv this]
  have inv: "crawl_inv w start_url st" .
  from inv show "\<forall>(url, seen)\<in>set (fetch_log st). url |\<notin>| seen" by (simp add: crawl_inv_def)
  from inv show "netloc w url = netloc w start_url" if "url |\<in>| visited st" for url
    using that by (simp add: crawl_inv_def)
  from inv show "\<forall>url\<in>fst ` set (data st). netloc w url = netloc w start_url"
    by (simp add: crawl_inv_def)
next
  fix pages
  assume "crawl_website_async w start_url max_pages n = Some (Inr pages)"
  then obtain st where
    "crawl_run w start_url max_pages n (crawl_init start_url) = Stopped st" "pages = data st"
    by (auto simp: crawl_website_async_def split: progress.splits)
  with crawl_run_inv[OF crawl_init_inv, of w start_url max_pages n st]
  show "\<forall>url\<in>fst ` set pages. netloc w url = netloc w start_url"
    by (simp add: crawl_inv_def)
qed

text \<open>
  The theorem at the example site without a page cap: three passes end the crawl;
  the mail link was not followed and the three pages returned are of the start
  URL's site.
\<close>

theorem crawl_same_site_no_revisit_witness:
  "crawl_website_async example_web ''http://example.test/'' None 3 =
     Some (Inr [(''http://example.test/'', ''<html>page</html>''),
                (''http://example.test/a'', ''<html>page</html>''),
                (''http://example.test/b'', ''<html>page</html>'')]) \<and>
   netloc example_web ''http://example.test/b'' = netloc example_web ''http://example.test/''"
proof -
  let ?pages = "[(''http://example.test/'', ''<html>page</html>''),
                 (''http://example.test/a'', ''<html>page</html>''),
                 (''http://example.test/b'', ''<html>page</html>'')]"
  have r: "crawl_website_async example_web ''http://example.test/'' None 3 = Some (Inr ?pages)"
    by code_simp
  from crawl_same_site_no_revisit[of example_web "''http://example.test/''" None 3] r
  have "\<forall>url\<in>fst ` set ?pages.
          netloc example_web url = netloc example_web ''http://example.test/''"
    by blast
  then have "netloc example_web ''http://example.test/b'' = netloc example_web ''http://example.test/''"
    by simp
  with r show ?thesis by simp
qed

text \<open>
  Claim C2 at the example site with a page cap of 2. The cap is tested once per
  batch: after the start page one page is visited, which is below the cap, so the
  next batch of two URLs is requested and stored whole. The crawl ends with three
  visited pages and returns three entries.
\<close>

theorem crawl_exceeds_max_pages:
  "crawl_website_async example_web ''http://example.test/'' (Some 2) 3 =
     Some (Inr [(''http://example.test/'', ''<html>page</html>''),
                (''http://example.test/a'', ''<html>page</html>''),
                (''http://example.test/b'', ''<html>page</html>'')]) \<and>
   (case crawl_run example_web ''http://example.test/'' (Some 2) 3 (crawl_init ''http://example.test/'') of
      Stopped st \<Rightarrow> int (fcard (visited st))
    | _ \<Rightarrow> 0) = 3"
  by code_simp

section \<open>Proofs: the progress store and the task orchestrator\<close>

subsection \<open>Writing to an entry\<close>

lemma apply_kwargs_status [simp]: "status (foldl apply_kwarg snap kw) = status snap"
proof (induction kw arbitrary: snap)
  case (Cons k ks) then show ?case by (cases k) auto
qed simp

lemma apply_kwargs_is_completed [simp]: "is_completed (foldl apply_kwarg snap kw) = is_completed snap"
proof (induction kw arbitrary: snap)
  case (Cons k ks) then show ?case by (cases k) auto
qed simp





lemma update_progress_active [simp]:
  "active_tasks (update_progress st u t s kw now) = active_tasks st"
  by (auto simp: update_progress_def put_snapshot_def Let_def split: option.splits)

lemma update_progress_background [simp]:
  "background (update_progress st u t s kw now) = background st"
  by (auto simp: update_progress_def put_snapshot_def Let_def split: option.splits)













subsection \<open>One step of a background run\<close>











subsection \<open>Events keep the invariant\<close>

lemma run_ok_cong:
  assumes "scraping_progress st' (run_user r) (run_task r) = scraping_progress st (run_user r) (run_task r)"
  shows "run_ok st' r = run_ok st r"
  unfolding run_ok_def assms ..


lemma store_inv_background [simp]: "store_inv (st\<lparr>background := b\<rparr>) = store_inv st"
proof -
  have sw: "statuses_written (st\<lparr>background := b\<rparr>) = statuses_written st"
    by (intro ext) (simp add: statuses_written_def)
  have p: "scraping_progress (st\<lparr>background := b\<rparr>) = scraping_progress st"
    and a: "active_tasks (st\<lparr>background := b\<rparr>) = active_tasks st" by simp_all
  show ?thesis unfolding store_inv_def task_log_ok_def sw p a ..
qed

lemma run_ok_background [simp]: "run_ok (st\<lparr>background := b\<rparr>) r = run_ok st r"
  by (rule run_ok_cong) simp









subsection \<open>The claims\<close>






lemma example_sys_alice: "scraping_progress example_sys ''alice'' ''t1'' = Some example_snapshot"
  unfolding example_sys_def example_snapshot_def by code_simp

lemma example_sys_bob: "scraping_progress example_sys ''bob'' ''t1'' = None"
  unfolding example_sys_def by code_simp

text \<open>
  Claim C9. A task id that the requesting user's table does not hold gives 404 and
  leaves the state alone, also when another user's table holds that id. A task id
  the user's table holds gives the entry as it is stored when the call returns:
  the entry as it was, or with \<open>last_update\<close> refreshed.
\<close>

theorem get_scraping_progress_scoped:
  "(scraping_progress st user_id task_id = None \<longrightarrow>
      get_scraping_progress st user_id task_id now = (Inl (HTTPException 404 ''Task not found''), st)) \<and>
   (scraping_progress st user_id task_id = None \<and> scraping_progress st other_user task_id = Some other \<longrightarrow>
      get_scraping_progress st user_id task_id now = (Inl (HTTPException 404 ''Task not found''), st)) \<and>
   (scraping_progress st user_id task_id = Some snap \<longrightarrow>
      (\<exists>snap'. fst (get_scraping_progress st user_id task_id now) = Inr snap' \<and>
               scraping_progress (snd (get_scraping_progress st user_id task_id now)) user_id task_id
                 = Some snap' \<and>
               (snap' = snap \<or> snap' = snap\<lparr>last_update := now\<rparr>)))"
  by (auto simp: get_scraping_progress_def put_snapshot_def Let_def)

text \<open>
  The theorem after alice's three requests: bob's lookup of alice's task gives 404,
  alice's own gives the entry.
\<close>

theorem get_scraping_progress_scoped_witness:
  "scraping_progress example_sys ''bob'' ''t1'' = None \<and>
   scraping_progress example_sys ''alice'' ''t1'' = Some example_snapshot \<and>
   get_scraping_progress example_sys ''bob'' ''t1'' 1500000 =
     (Inl (HTTPException 404 ''Task not found''), example_sys) \<and>
   fst (get_scraping_progress example_sys ''alice'' ''t1'' 1500000) = Inr example_snapshot"
proof -
  note t = get_scraping_progress_scoped[of example_sys "''bob''" "''t1''" 1500000 "''alice''"
      example_snapshot example_snapshot]
  from t example_sys_bob example_sys_alice
  have b: "get_scraping_progress example_sys ''bob'' ''t1'' 1500000 =
     (Inl (HTTPException 404 ''Task not found''), example_sys)" by blast
  have a: "fst (get_scraping_progress example_sys ''alice'' ''t1'' 1500000) = Inr example_snapshot"
    by (simp add: get_scraping_progress_def example_sys_alice example_snapshot_def truthy_def)
  from example_sys_bob example_sys_alice a b show ?thesis by blast
qed

text \<open>
  Claim C10. For a task the user's table holds: if the entry is not completed, has
  no error set and was last updated 2 seconds ago or more, the read stores the
  entry with \<open>last_update\<close> set to the current time, every other field, every
  other entry and the active sets as they were, and returns that entry. If the
  entry is completed, or has an error message, or was updated less than 2 seconds
  ago, the read returns the entry and changes nothing.
\<close>

theorem get_scraping_progress_refresh:
  assumes "scraping_progress st user_id task_id = Some snap"
  shows "(\<not> is_completed snap \<and> error snap = None \<and> now - last_update snap \<ge> 2000000 \<longrightarrow>
            get_scraping_progress st user_id task_id now =
              (Inr (snap\<lparr>last_update := now\<rparr>),
               st\<lparr>scraping_progress :=
                    (scraping_progress st)
                      (user_id := (scraping_progress st user_id)(task_id \<mapsto> snap\<lparr>last_update := now\<rparr>))\<rparr>)) \<and>
         (is_completed snap \<or> truthy (error snap) \<or> now - last_update snap < 2000000 \<longrightarrow>
            get_scraping_progress st user_id task_id now = (Inr snap, st))"
  using assms by (auto simp: get_scraping_progress_def put_snapshot_def Let_def truthy_def)

text \<open>
  The theorem at alice's first task, last updated at second 1: a read at second 3
  refreshes \<open>last_update\<close>, a read one microsecond earlier changes nothing.
\<close>

theorem get_scraping_progress_refresh_witness:
  "scraping_progress example_sys ''alice'' ''t1'' = Some example_snapshot \<and>
   fst (get_scraping_progress example_sys ''alice'' ''t1'' 3000000) =
     Inr (example_snapshot\<lparr>last_update := 3000000\<rparr>) \<and>
   get_scraping_progress example_sys ''alice'' ''t1'' 2999999 = (Inr example_snapshot, example_sys)"
proof -
  have nc: "\<not> is_completed example_snapshot" "error example_snapshot = None"
    "last_update example_snapshot = 1000000"
    by (simp_all add: example_snapshot_def)
  from get_scraping_progress_refresh[OF example_sys_alice, of 3000000] nc
  have a: "fst (get_scraping_progress example_sys ''alice'' ''t1'' 3000000) =
     Inr (example_snapshot\<lparr>last_update := 3000000\<rparr>)" by simp
  from get_scraping_progress_refresh[OF example_sys_alice, of 2999999] nc
  have b: "get_scraping_progress example_sys ''alice'' ''t1'' 2999999 = (Inr example_snapshot, example_sys)"
    by simp
  from example_sys_alice a b show ?thesis by blast
qed

end
